theory Spec2Isabelle
  imports Complex_Main "HOL-Library.Log_Nat"
begin

section \<open>The toolbar indicator of the dictionary reader (browser-action.ts)\<close>

text \<open>
  A shallow embedding of \<^verbatim>\<open>src/background/browser-action.ts\<close>: the snapshot type
  \<^verbatim>\<open>BrowserActionState\<close>, the derivation and the host calls of
  \<^verbatim>\<open>doUpdateBrowserAction\<close>, \<^verbatim>\<open>setIcon\<close>, \<^verbatim>\<open>setDefaultToolbarIcon\<close>, and the
  coalescing loop of \<^verbatim>\<open>updateBrowserAction\<close>.
\<close>

subsection \<open>JavaScript numbers\<close>

text \<open>
  A JavaScript number is an IEEE 754 double: a finite value, \<^verbatim>\<open>NaN\<close> or an infinity. A
  finite double is given by its exact value, a rational. The two zeros are one value here:
  \<^verbatim>\<open>Math.round\<close>, a product with a positive constant and the conversion to a string, the
  operations the source applies, give for \<^verbatim>\<open>-0\<close> what prints as for \<^verbatim>\<open>0\<close>.
\<close>

datatype number = Finite rat | NaN | PosInfinity | NegInfinity

text \<open>For \<open>a > 0\<close>, the exponent \<open>e\<close> with \<open>2 powi e \<le> a < 2 powi (e + 1)\<close>.\<close>

definition floorLog2 :: "rat \<Rightarrow> int" where
  "floorLog2 a =
     (let (p, q) = quotient_of a; d = bitlen p - bitlen q
      in if 2 powi d \<le> a then d else d - 1)"

text \<open>The nearest integer, a tie going to the even one.\<close>

definition roundHalfEven :: "rat \<Rightarrow> int" where
  "roundHalfEven x =
     (let f = \<lfloor>x\<rfloor>; r = x - of_int f
      in if r < 1 / 2 then f else if 1 / 2 < r then f + 1 else if even f then f else f + 1)"

text \<open>
  The double nearest to a rational, ties to even (the rounding of every arithmetic
  operation of the language): 53 significant bits, the exponent at least \<open>-1022\<close> (below
  it the doubles are the multiples of \<open>2 powi (- 1074)\<close>), and an infinity when the rounded value
  reaches \<open>2 ^ 1024\<close>.
\<close>

definition roundToDouble :: "rat \<Rightarrow> number" where
  "roundToDouble x =
     (if x = 0 then Finite 0
      else
        (let a = \<bar>x\<bar>;
             e = max (floorLog2 a) (- 1022);
             ulp = 2 powi (e - 52);
             m = of_int (roundHalfEven (a / ulp)) * ulp
         in if of_int (2 ^ 1024) \<le> m then (if x < 0 then NegInfinity else PosInfinity)
            else Finite (if x < 0 then - m else m)))"

text \<open>The product \<^verbatim>\<open>x * y\<close> of two numbers.\<close>

fun multiply :: "number \<Rightarrow> number \<Rightarrow> number" where
  "multiply (Finite a) (Finite b) = roundToDouble (a * b)"
| "multiply NaN y = NaN"
| "multiply x NaN = NaN"
| "multiply PosInfinity (Finite b) =
     (if b = 0 then NaN else if 0 < b then PosInfinity else NegInfinity)"
| "multiply NegInfinity (Finite b) =
     (if b = 0 then NaN else if 0 < b then NegInfinity else PosInfinity)"
| "multiply (Finite a) PosInfinity =
     (if a = 0 then NaN else if 0 < a then PosInfinity else NegInfinity)"
| "multiply (Finite a) NegInfinity =
     (if a = 0 then NaN else if 0 < a then NegInfinity else PosInfinity)"
| "multiply PosInfinity PosInfinity = PosInfinity"
| "multiply PosInfinity NegInfinity = NegInfinity"
| "multiply NegInfinity PosInfinity = NegInfinity"
| "multiply NegInfinity NegInfinity = PosInfinity"

text \<open>
  \<^verbatim>\<open>Math.round\<close>: the integer nearest to the exact value of the number, a half rounded
  up; \<^verbatim>\<open>NaN\<close> and the infinities are returned as they are.
\<close>

fun mathRound :: "number \<Rightarrow> number" where
  "mathRound (Finite x) = Finite (of_int \<lfloor>x + 1 / 2\<rfloor>)"
| "mathRound x = x"

subsection \<open>Data model\<close>

text \<open>
  The data series of the dictionary. The update state names one of the four keys of the
  \<^verbatim>\<open>seriesColors\<close> table.
\<close>

datatype DataSeries = Words | Names | Kanji | Radicals

text \<open>
  \<^verbatim>\<open>jpdictState.updateState\<close>, a union tagged by \<^verbatim>\<open>type\<close>. The \<^verbatim>\<open>switch\<close> of the
  source has a case for \<^verbatim>\<open>'checking'\<close> and one for \<^verbatim>\<open>'updating'\<close>; every other tag
  falls through it and is \<open>Idle\<close> here. \<^verbatim>\<open>totalProgress\<close> is a JavaScript number.
\<close>

datatype UpdateState = Idle | Checking DataSeries | Updating DataSeries number

text \<open>
  The load state of a series is a string in the source, compared with string literals;
  it stays a string here. The words series carries the state of the fallback data too.
\<close>

record DataSeriesInfo =
  state :: string

record WordsInfo = DataSeriesInfo +
  fallbackState :: string

record UpdateErrorState =
  name :: string

record JpdictStateWithFallback =
  words :: WordsInfo
  names :: DataSeriesInfo
  kanji :: DataSeriesInfo
  radicals :: DataSeriesInfo
  updateState :: UpdateState
  updateError :: "UpdateErrorState option"

datatype ToolbarIcon = Default | Sky

record BrowserActionState =
  enabled :: bool
  jpdictState :: JpdictStateWithFallback
  tabId :: "int option"
  toolbarIcon :: ToolbarIcon

text \<open>\<^verbatim>\<open>jpdictState[series].state\<close>\<close>

fun seriesState :: "JpdictStateWithFallback \<Rightarrow> DataSeries \<Rightarrow> string" where
  "seriesState js Words = state (words js)"
| "seriesState js Names = state (names js)"
| "seriesState js Kanji = state (kanji js)"
| "seriesState js Radicals = state (radicals js)"

subsection \<open>What the module takes from outside\<close>

text \<open>
  The module reads these from its imports, the build and the host; they are parameters
  of the model:
  \<^item> \<open>getMessage\<close>: \<^verbatim>\<open>browser.i18n.getMessage(key, substitutions)\<close>;
  \<^item> \<open>getLocalizedDataSeriesLabel\<close>: the helper of \<^verbatim>\<open>common/data-series-labels\<close>;
  \<^item> \<open>allMajorDataSeries\<close>: the constant of the dictionary library;
  \<^item> \<open>supportsSvgIcons\<close>: the build flag \<^verbatim>\<open>__SUPPORTS_SVG_ICONS__\<close>;
  \<^item> \<open>hasComposeAction\<close>: whether \<^verbatim>\<open>browser.composeAction\<close> is defined, so that
    \<^verbatim>\<open>browser.composeAction?.f(...)\<close> makes the call;
  \<^item> \<open>hostNumberToString\<close>: the string the language gives a finite number that is not an
    integer of magnitude at most \<open>2 ^ 53\<close> (the shortest digits that read back as the
    number, with an exponent where it is large or small).
\<close>

record Env =
  getMessage :: "string \<Rightarrow> string list \<Rightarrow> string"
  getLocalizedDataSeriesLabel :: "DataSeries \<Rightarrow> string"
  allMajorDataSeries :: "DataSeries list"
  supportsSvgIcons :: bool
  hasComposeAction :: bool
  hostNumberToString :: "rat \<Rightarrow> string"

subsection \<open>Host calls\<close>

text \<open>
  A call on the host: the surface (\<^verbatim>\<open>browser.browserAction\<close> or
  \<^verbatim>\<open>browser.composeAction\<close>), the method with its argument, the \<^verbatim>\<open>tabId\<close> passed (the
  compose action is never passed one), and the route: \<open>Direct\<close> for a call the function
  makes itself and awaits, \<open>Throttled\<close> for a call handed to \<^verbatim>\<open>throttledSetTitle\<close>.
\<close>

datatype Surface = BrowserAction | ComposeAction

datatype IconPath = Svg string | Png "(nat \<times> string) list"

datatype Method =
    SetIcon IconPath
  | SetBadgeText string
  | SetBadgeBackgroundColor string
  | SetTitle string

datatype Route = Direct | Throttled

datatype Call = Call Route Surface Method "int option"

fun route :: "Call \<Rightarrow> Route" where
  "route (Call r s m t) = r"

fun surface :: "Call \<Rightarrow> Surface" where
  "surface (Call r s m t) = s"

fun apiMethod :: "Call \<Rightarrow> Method" where
  "apiMethod (Call r s m t) = m"

fun isSetTitle :: "Method \<Rightarrow> bool" where
  "isSetTitle (SetTitle t) = True"
| "isSetTitle m = False"

text \<open>The badge texts, badge colours and titles a list of calls sets on a surface, in order.\<close>

fun badgeTexts :: "Surface \<Rightarrow> Call list \<Rightarrow> string list" where
  "badgeTexts s [] = []"
| "badgeTexts s (Call r s' (SetBadgeText t) i # cs) =
     (if s' = s then t # badgeTexts s cs else badgeTexts s cs)"
| "badgeTexts s (c # cs) = badgeTexts s cs"

fun badgeColors :: "Surface \<Rightarrow> Call list \<Rightarrow> string list" where
  "badgeColors s [] = []"
| "badgeColors s (Call r s' (SetBadgeBackgroundColor t) i # cs) =
     (if s' = s then t # badgeColors s cs else badgeColors s cs)"
| "badgeColors s (c # cs) = badgeColors s cs"

fun titles :: "Surface \<Rightarrow> Call list \<Rightarrow> string list" where
  "titles s [] = []"
| "titles s (Call r s' (SetTitle t) i # cs) =
     (if s' = s then t # titles s cs else titles s cs)"
| "titles s (c # cs) = titles s cs"

subsection \<open>Strings of the source\<close>

text \<open>\<^verbatim>\<open>Array.prototype.join\<close> with a separator.\<close>

fun join :: "string \<Rightarrow> string list \<Rightarrow> string" where
  "join sep [] = []"
| "join sep [x] = x"
| "join sep (x # y # ys) = x @ sep @ join sep (y # ys)"

text \<open>The decimal string of an integer.\<close>

definition digitChar :: "nat \<Rightarrow> char" where
  "digitChar d =
     (if d = 0 then CHR ''0'' else if d = 1 then CHR ''1'' else if d = 2 then CHR ''2''
      else if d = 3 then CHR ''3'' else if d = 4 then CHR ''4'' else if d = 5 then CHR ''5''
      else if d = 6 then CHR ''6'' else if d = 7 then CHR ''7'' else if d = 8 then CHR ''8''
      else CHR ''9'')"

fun digits :: "nat \<Rightarrow> string" where
  "digits n = (if n < 10 then [digitChar n] else digits (n div 10) @ [digitChar (n mod 10)])"

declare digits.simps [simp del]

definition intToString :: "int \<Rightarrow> string" where
  "intToString i = (if i < 0 then ''-'' @ digits (nat (- i)) else digits (nat i))"

text \<open>
  The string of a number, as \<^verbatim>\<open>String(n)\<close> and \<^verbatim>\<open>n + 'p'\<close> give it: the decimal digits
  for an integer of magnitude at most \<open>2 ^ 53\<close>, the host's string for every other finite
  number.
\<close>

definition numberToString :: "Env \<Rightarrow> number \<Rightarrow> string" where
  "numberToString env n =
     (case n of
        Finite x \<Rightarrow>
          if of_int \<lfloor>x\<rfloor> = x \<and> \<bar>x\<bar> \<le> 2 ^ 53 then intToString \<lfloor>x\<rfloor>
          else hostNumberToString env x
      | NaN \<Rightarrow> ''NaN''
      | PosInfinity \<Rightarrow> ''Infinity''
      | NegInfinity \<Rightarrow> ''-Infinity'')"

subsection \<open>setIcon\<close>

definition setIcon :: "Env \<Rightarrow> string \<Rightarrow> int option \<Rightarrow> Call list" where
  "setIcon env iconFilename tab =
     (if supportsSvgIcons env then
        (let details = Svg (''images/'' @ iconFilename @ ''.svg'')
         in Call Direct BrowserAction (SetIcon details) tab #
            (if hasComposeAction env then [Call Direct ComposeAction (SetIcon details) None]
             else []))
      else
        (let details = Png
               [(16, ''images/'' @ iconFilename @ ''-16.png''),
                (32, ''images/'' @ iconFilename @ ''-32.png''),
                (48, ''images/'' @ iconFilename @ ''-48.png'')]
         in Call Direct BrowserAction (SetIcon details) tab #
            (if hasComposeAction env then [Call Direct ComposeAction (SetIcon details) None]
             else [])))"

subsection \<open>doUpdateBrowserAction\<close>

text \<open>The two locals the function builds up: \<^verbatim>\<open>iconFilenameParts\<close> and \<^verbatim>\<open>tooltip\<close>.\<close>

record Locals =
  iconFilenameParts :: "string list"
  tooltip :: string

text \<open>
  Lines 64 to 97: the \<^verbatim>\<open>'10ten'\<close> stem, the \<^verbatim>\<open>'sky'\<close> variant, then the base icon
  type and text.
\<close>

definition chooseBase :: "Env \<Rightarrow> BrowserActionState \<Rightarrow> Locals" where
  "chooseBase env params =
     (let parts = [''10ten''];
          parts = (if toolbarIcon params = Sky then parts @ [''sky''] else parts)
      in if enabled params then
           (let jpdictWords = state (words (jpdictState params));
                fallbackWords = fallbackState (words (jpdictState params))
            in if jpdictWords = ''ok'' \<or> fallbackWords = ''ok'' then
                 \<lparr>iconFilenameParts = parts,
                  tooltip = getMessage env ''command_toggle_enabled'' []\<rparr>
               else if jpdictWords = ''init'' \<or> fallbackWords = ''loading'' then
                 \<lparr>iconFilenameParts = parts,
                  tooltip = getMessage env ''command_toggle_loading'' []\<rparr>
               else if fallbackWords = ''unloaded'' then
                 \<lparr>iconFilenameParts = parts,
                  tooltip = getMessage env ''command_toggle_enabled'' []\<rparr>
               else
                 \<lparr>iconFilenameParts = parts @ [''error''],
                  tooltip = getMessage env ''error_loading_dictionary'' []\<rparr>)
         else
           \<lparr>iconFilenameParts = parts @ [''disabled''],
            tooltip = getMessage env ''command_toggle_disabled'' []\<rparr>)"

fun seriesColors :: "DataSeries \<Rightarrow> string" where
  "seriesColors Words = ''green''"
| "seriesColors Names = ''blue''"
| "seriesColors Kanji = ''purple''"
| "seriesColors Radicals = ''purple''"

text \<open>Line 124: \<^verbatim>\<open>Math.round(totalProgress * 5) * 20 + 'p'\<close>.\<close>

definition progressSuffix :: "Env \<Rightarrow> number \<Rightarrow> string" where
  "progressSuffix env totalProgress =
     numberToString env (multiply (mathRound (multiply totalProgress (Finite 5))) (Finite 20)) @
     ''p''"

text \<open>Line 129: \<^verbatim>\<open>Math.round(totalProgress * 100)\<close>.\<close>

definition progressAsPercent :: "number \<Rightarrow> number" where
  "progressAsPercent totalProgress = mathRound (multiply totalProgress (Finite 100))"

text \<open>Lines 106 to 136: the \<^verbatim>\<open>switch\<close> on the update state.\<close>

fun overlayUpdateState :: "Env \<Rightarrow> UpdateState \<Rightarrow> Locals \<Rightarrow> Locals" where
  "overlayUpdateState env (Checking series) l =
     \<lparr>iconFilenameParts = iconFilenameParts l @ [''0p'', seriesColors series],
      tooltip = getMessage env ''command_toggle_checking'' []\<rparr>"
| "overlayUpdateState env (Updating series totalProgress) l =
     (let parts =
            (if ''error'' \<notin> set (iconFilenameParts l) then
               iconFilenameParts l @ [progressSuffix env totalProgress, seriesColors series]
             else iconFilenameParts l);
          dbLabel = getLocalizedDataSeriesLabel env series
      in \<lparr>iconFilenameParts = parts,
          tooltip = getMessage env ''command_toggle_downloading''
            [dbLabel, numberToString env (progressAsPercent totalProgress)]\<rparr>)"
| "overlayUpdateState env Idle l = l"

text \<open>The locals at line 142, and the file name joined from the parts.\<close>

definition derived :: "Env \<Rightarrow> BrowserActionState \<Rightarrow> Locals" where
  "derived env params =
     overlayUpdateState env (updateState (jpdictState params)) (chooseBase env params)"

definition iconFilename :: "Env \<Rightarrow> BrowserActionState \<Rightarrow> string" where
  "iconFilename env params = join ''-'' (iconFilenameParts (derived env params))"

text \<open>Lines 147 to 158: the condition of the warning overlay.\<close>

definition hasNotOkDatabase :: "Env \<Rightarrow> JpdictStateWithFallback \<Rightarrow> bool" where
  "hasNotOkDatabase env js =
     list_ex (\<lambda>series. seriesState js series \<noteq> ''ok'') (allMajorDataSeries env)"

definition showsUpdateError :: "Env \<Rightarrow> JpdictStateWithFallback \<Rightarrow> bool" where
  "showsUpdateError env js =
     (hasNotOkDatabase env js \<and>
      (case updateError js of
         None \<Rightarrow> False
       | Some e \<Rightarrow> name e \<noteq> ''AbortError'' \<and> name e \<noteq> ''QuotaExceededError''))"

text \<open>
  Lines 150 to 170: the value of \<^verbatim>\<open>tooltip\<close> after the warning overlay, which is the
  caption the function sets.
\<close>

definition caption :: "Env \<Rightarrow> BrowserActionState \<Rightarrow> string" where
  "caption env params =
     (if showsUpdateError env (jpdictState params) then
        getMessage env ''command_toggle_update_error'' []
      else tooltip (derived env params))"

text \<open>
  The host calls of one run of the function, in the order it makes them when each awaited
  call resolves. (A call that rejects ends the run there: see \<open>perform\<close> below.)
\<close>

definition doUpdateBrowserAction :: "Env \<Rightarrow> BrowserActionState \<Rightarrow> Call list" where
  "doUpdateBrowserAction env params =
     (let tab = tabId params;
          compose = (\<lambda>m. if hasComposeAction env then [Call Direct ComposeAction m None] else []);
          icon = setIcon env (iconFilename env params) tab;
          badge =
            (if showsUpdateError env (jpdictState params) then
               [Call Direct BrowserAction (SetBadgeText ''!'') tab] @
               compose (SetBadgeText ''!'') @
               [Call Direct BrowserAction (SetBadgeBackgroundColor ''yellow'') tab] @
               compose (SetBadgeBackgroundColor ''yellow'')
             else
               [Call Direct BrowserAction (SetBadgeText '''') tab] @
               compose (SetBadgeText ''''))
      in icon @ badge @
         [Call Throttled BrowserAction (SetTitle (caption env params)) tab] @
         compose (SetTitle (caption env params)))"

subsection \<open>setDefaultToolbarIcon\<close>

definition defaultIconFilename :: "ToolbarIcon \<Rightarrow> string" where
  "defaultIconFilename icon = (if icon = Sky then ''10ten-disabled'' else ''10ten-sky-disabled'')"

definition setDefaultToolbarIcon :: "Env \<Rightarrow> ToolbarIcon \<Rightarrow> Call list" where
  "setDefaultToolbarIcon env icon = setIcon env (defaultIconFilename icon) None"

subsection \<open>A run against a host that may reject\<close>

text \<open>
  Every \<open>Direct\<close> call is awaited, so one that rejects ends the run of the function with
  the error; the calls after it are never made. \<^verbatim>\<open>throttledSetTitle\<close> is called without
  \<^verbatim>\<open>await\<close> and discards the promise of the title call (\<^verbatim>\<open>void\<close>), so it never ends the
  run. \<open>rejects\<close> is the host's behaviour during the run.
\<close>

datatype Thrown = Thrown

fun perform :: "(Call \<Rightarrow> bool) \<Rightarrow> Call list \<Rightarrow> Call list \<times> (Thrown + unit)" where
  "perform rejects [] = ([], Inr ())"
| "perform rejects (c # cs) =
     (if route c = Direct \<and> rejects c then ([c], Inl Thrown)
      else (c # fst (perform rejects cs), snd (perform rejects cs)))"

subsection \<open>updateBrowserAction: the coalescing loop\<close>

text \<open>
  The module's state is the variable \<^verbatim>\<open>currentUpdate\<close>, of type
  \<^verbatim>\<open>{ next?: BrowserActionState } | undefined\<close>: \<open>None\<close> is \<^verbatim>\<open>undefined\<close>, \<open>Some None\<close> is
  the object \<^verbatim>\<open>{}\<close>, \<open>Some (Some p)\<close> is \<^verbatim>\<open>{ next: p }\<close>. The model adds what the
  properties below observe: \<open>awaiting\<close> has one entry for every live run of the asynchronous loop, the
  snapshot whose \<^verbatim>\<open>doUpdateBrowserAction\<close> it is suspended on, and \<open>rendered\<close> lists the
  snapshots \<^verbatim>\<open>doUpdateBrowserAction\<close> was called with, in order.
\<close>

record Coalescer =
  currentUpdate :: "BrowserActionState option option"
  awaiting :: "BrowserActionState list"
  rendered :: "BrowserActionState list"

definition idle :: Coalescer where
  "idle = \<lparr>currentUpdate = None, awaiting = [], rendered = []\<rparr>"

text \<open>
  The loop from the test of \<^verbatim>\<open>while (nextParams)\<close> to its next suspension: with a
  snapshot it sets \<^verbatim>\<open>currentUpdate = {}\<close>, calls \<^verbatim>\<open>doUpdateBrowserAction\<close> and suspends
  on the \<^verbatim>\<open>await\<close>; without one it leaves the loop and sets
  \<^verbatim>\<open>currentUpdate = undefined\<close>.
\<close>

definition whileNextParams :: "BrowserActionState option \<Rightarrow> Coalescer \<Rightarrow> Coalescer" where
  "whileNextParams nextParams c =
     (case nextParams of
        Some p \<Rightarrow>
          c\<lparr>currentUpdate := Some None, awaiting := awaiting c @ [p],
            rendered := rendered c @ [p]\<rparr>
      | None \<Rightarrow> c\<lparr>currentUpdate := None\<rparr>)"

definition updateBrowserAction :: "BrowserActionState \<Rightarrow> Coalescer \<Rightarrow> Coalescer" where
  "updateBrowserAction params c =
     (case currentUpdate c of
        Some u \<Rightarrow> c\<lparr>currentUpdate := Some (Some params)\<rparr>
      | None \<Rightarrow> whileNextParams (Some params) c)"

text \<open>
  The loop resumes when the awaited \<^verbatim>\<open>doUpdateBrowserAction\<close> of its run number \<open>i\<close>
  settles: \<open>Inr ()\<close> when it resolved, \<open>Inl e\<close> when it threw, which the empty
  \<^verbatim>\<open>catch\<close> block takes. Either way the loop reads \<^verbatim>\<open>currentUpdate?.next\<close> and goes
  back to its test.
\<close>

definition resume :: "nat \<Rightarrow> Thrown + unit \<Rightarrow> Coalescer \<Rightarrow> Coalescer" where
  "resume i outcome c =
     (if i < length (awaiting c) then
        (let c' = c\<lparr>awaiting := take i (awaiting c) @ drop (Suc i) (awaiting c)\<rparr>;
             nextParams = (case currentUpdate c' of None \<Rightarrow> None | Some u \<Rightarrow> u)
         in case outcome of
              Inl e \<Rightarrow> whileNextParams nextParams c'
            | Inr u \<Rightarrow> whileNextParams nextParams c')
      else c)"

text \<open>
  What can happen to the module on the single thread: a producer submits a snapshot, or
  the awaited call of a suspended run settles.
\<close>

datatype Event = Submit BrowserActionState | Settle nat "Thrown + unit"

fun step :: "Coalescer \<Rightarrow> Event \<Rightarrow> Coalescer" where
  "step c (Submit params) = updateBrowserAction params c"
| "step c (Settle i outcome) = resume i outcome c"

definition run :: "Coalescer \<Rightarrow> Event list \<Rightarrow> Coalescer" where
  "run c evs = foldl step c evs"

subsection \<open>The rate limiter\<close>

text \<open>
  Modelled from the spec: \<^verbatim>\<open>throttle\<close> of \<^verbatim>\<open>utils/throttle\<close>, which is not among the
  source files. The spec's words (section 4.1): a call runs the effect at once when no
  execution of the effect occurred within \<open>minIntervalMs\<close>; otherwise the call is deferred,
  replacing any pending invocation, and a timer is armed to fire exactly \<open>minIntervalMs\<close>
  after the last actual execution, when the effect runs with the most recently supplied
  arguments. Time is in milliseconds. \<open>executed\<close> lists the executions of the effect: the
  time and the arguments.
\<close>

record 'a Throttle =
  minIntervalMs :: nat
  lastRun :: "nat option"
  pendingCall :: "('a \<times> nat) option"
  executed :: "(nat \<times> 'a) list"

text \<open>
  Modelled from the spec: \<^verbatim>\<open>throttle(effect, limit)\<close> (\<^verbatim>\<open>utils/throttle\<close> is not among
  the source files): a fresh wrapper, with no execution yet and no timer armed.
\<close>

definition throttle :: "nat \<Rightarrow> 'a Throttle" where
  "throttle limit = \<lparr>minIntervalMs = limit, lastRun = None, pendingCall = None, executed = []\<rparr>"

text \<open>
  Modelled from the spec: the timer of the rate limiter (\<^verbatim>\<open>utils/throttle\<close> is not among
  the source files), looked at at time \<open>now\<close>: a pending invocation that is due has run,
  at its due time, \<open>minIntervalMs\<close> after the last execution.
\<close>

definition fireTimer :: "nat \<Rightarrow> 'a Throttle \<Rightarrow> 'a Throttle" where
  "fireTimer now t =
     (case pendingCall t of
        None \<Rightarrow> t
      | Some (args, due) \<Rightarrow>
          if due \<le> now then
            t\<lparr>lastRun := Some due, pendingCall := None, executed := executed t @ [(due, args)]\<rparr>
          else t)"

text \<open>
  Modelled from the spec: a call, at time \<open>now\<close>, of the wrapper that \<^verbatim>\<open>throttle\<close>
  returns (\<^verbatim>\<open>utils/throttle\<close> is not among the source files). With no execution of
  the effect within \<open>minIntervalMs\<close> the effect runs at once; otherwise the call replaces
  the pending invocation, due \<open>minIntervalMs\<close> after the last execution.
\<close>

definition callThrottled :: "nat \<Rightarrow> 'a \<Rightarrow> 'a Throttle \<Rightarrow> 'a Throttle" where
  "callThrottled now args t0 =
     (let t = fireTimer now t0 in
      case lastRun t of
        None \<Rightarrow> t\<lparr>lastRun := Some now, executed := executed t @ [(now, args)]\<rparr>
      | Some l \<Rightarrow>
          if l + minIntervalMs t \<le> now then
            t\<lparr>lastRun := Some now, executed := executed t @ [(now, args)]\<rparr>
          else t\<lparr>pendingCall := Some (args, l + minIntervalMs t)\<rparr>)"

text \<open>
  Modelled from the spec: a sequence of calls of the wrapper, each with its time, in the
  order they are made.
\<close>

fun callsThrottled :: "(nat \<times> 'a) list \<Rightarrow> 'a Throttle \<Rightarrow> 'a Throttle" where
  "callsThrottled [] t = t"
| "callsThrottled ((now, args) # cs) t = callsThrottled cs (callThrottled now args t)"

text \<open>
  Lines 19 to 24 of the source: \<^verbatim>\<open>throttledSetTitle\<close> is the title call of the browser
  action under a limit of 2500 ms. Its arguments are the title and the \<^verbatim>\<open>tabId\<close>.
\<close>

definition throttledSetTitle :: "(string \<times> int option) Throttle" where
  "throttledSetTitle = throttle 2500"

text \<open>
  The states of the rate limiter model: a pending invocation is due \<open>minIntervalMs\<close> after
  the last execution of the effect.
\<close>

definition throttleInv :: "'a Throttle \<Rightarrow> bool" where
  "throttleInv t =
     (case pendingCall t of
        None \<Rightarrow> True
      | Some (args, due) \<Rightarrow>
          (case lastRun t of None \<Rightarrow> False | Some l \<Rightarrow> due = l + minIntervalMs t))"

subsection \<open>Well-formed states of the loop\<close>

text \<open>
  The states the loop can be in: stopped, with \<^verbatim>\<open>currentUpdate\<close> undefined and no run of
  the loop alive, or running, with \<^verbatim>\<open>currentUpdate\<close> set and exactly one run suspended.
\<close>

definition wellFormed :: "Coalescer \<Rightarrow> bool" where
  "wellFormed c =
     (case awaiting c of
        [] \<Rightarrow> currentUpdate c = None
      | [p] \<Rightarrow> currentUpdate c \<noteq> None
      | _ \<Rightarrow> False)"

subsection \<open>Concrete inputs\<close>

text \<open>
  An environment whose messages are their keys followed by the substitutions, with the
  three major series of the dictionary library, vector icons and a compose action; two
  dictionary states; three snapshots; the doubles that the literals \<^verbatim>\<open>0.43\<close>, \<^verbatim>\<open>0.3\<close>
  and \<^verbatim>\<open>0.5\<close> denote (the first two are multiples of \<open>2 powi (- 54)\<close>).
\<close>

definition double043 :: rat where
  "double043 = 7746191359077253 / 18014398509481984"

definition double03 :: rat where
  "double03 = 5404319552844595 / 18014398509481984"

definition double05 :: rat where
  "double05 = 1 / 2"

definition exampleNumberToString :: "rat \<Rightarrow> string" where
  "exampleNumberToString x = ''other''"

definition exampleMessage :: "string \<Rightarrow> string list \<Rightarrow> string" where
  "exampleMessage key substitutions = join '' '' (key # substitutions)"

fun exampleLabel :: "DataSeries \<Rightarrow> string" where
  "exampleLabel Words = ''words''"
| "exampleLabel Names = ''names''"
| "exampleLabel Kanji = ''kanji''"
| "exampleLabel Radicals = ''radicals''"

definition exampleEnv :: Env where
  "exampleEnv =
     \<lparr>getMessage = exampleMessage, getLocalizedDataSeriesLabel = exampleLabel,
      allMajorDataSeries = [Words, Kanji, Names], supportsSvgIcons = True,
      hasComposeAction = True, hostNumberToString = exampleNumberToString\<rparr>"

definition jpdictOk :: JpdictStateWithFallback where
  "jpdictOk =
     \<lparr>words = \<lparr>state = ''ok'', fallbackState = ''unloaded''\<rparr>, names = \<lparr>state = ''ok''\<rparr>,
      kanji = \<lparr>state = ''ok''\<rparr>, radicals = \<lparr>state = ''ok''\<rparr>, updateState = Idle,
      updateError = None\<rparr>"

definition jpdictBroken :: JpdictStateWithFallback where
  "jpdictBroken =
     \<lparr>words = \<lparr>state = ''empty'', fallbackState = ''error''\<rparr>, names = \<lparr>state = ''ok''\<rparr>,
      kanji = \<lparr>state = ''ok''\<rparr>, radicals = \<lparr>state = ''ok''\<rparr>, updateState = Idle,
      updateError = None\<rparr>"

definition exampleEnabled :: BrowserActionState where
  "exampleEnabled =
     \<lparr>enabled = True, jpdictState = jpdictOk, tabId = Some 1, toolbarIcon = Default\<rparr>"

definition exampleDisabled :: BrowserActionState where
  "exampleDisabled =
     \<lparr>enabled = False, jpdictState = jpdictOk, tabId = Some 1, toolbarIcon = Sky\<rparr>"

definition exampleBroken :: BrowserActionState where
  "exampleBroken =
     \<lparr>enabled = True, jpdictState = jpdictBroken, tabId = None, toolbarIcon = Default\<rparr>"

text \<open>\<open>occursAfter x y xs\<close>: \<open>x\<close> occurs in \<open>xs\<close> after the first \<open>y\<close>.\<close>

definition occursAfter :: "'a \<Rightarrow> 'a \<Rightarrow> 'a list \<Rightarrow> bool" where
  "occursAfter x y xs = (x \<in> set (dropWhile (\<lambda>z. z \<noteq> y) xs))"

section \<open>Properties\<close>

subsection \<open>Auxiliary facts\<close>

lemmas fixture_defs = exampleEnv_def exampleMessage_def jpdictOk_def jpdictBroken_def
  exampleEnabled_def exampleDisabled_def exampleBroken_def

lemmas derive_defs = iconFilename_def derived_def chooseBase_def Let_def

lemmas call_defs = doUpdateBrowserAction_def setIcon_def caption_def Let_def

lemma overlay_parts:
  "iconFilenameParts (overlayUpdateState env u l) =
     iconFilenameParts l @
       (case u of
          Idle \<Rightarrow> []
        | Checking series \<Rightarrow> [''0p'', seriesColors series]
        | Updating series totalProgress \<Rightarrow>
            if ''error'' \<in> set (iconFilenameParts l) then []
            else [progressSuffix env totalProgress, seriesColors series])"
  by (cases u) (simp_all add: Let_def)

lemma roundHalfEven_le:
  assumes "x \<le> of_int N"
  shows "roundHalfEven x \<le> N"
proof -
  have f: "\<lfloor>x\<rfloor> \<le> N" using assms by (simp add: floor_le_iff)
  show ?thesis
  proof (cases "\<lfloor>x\<rfloor> = N")
    case True
    have "of_int \<lfloor>x\<rfloor> \<le> x" by (rule of_int_floor_le)
    then have "of_int N \<le> x" using True by simp
    with assms have "x = of_int N" by simp
    then show ?thesis by (simp add: roundHalfEven_def)
  next
    case False
    with f have "\<lfloor>x\<rfloor> + 1 \<le> N" by simp
    then show ?thesis using f by (simp add: roundHalfEven_def Let_def)
  qed
qed

lemma roundHalfEven_nonneg: "0 \<le> x \<Longrightarrow> 0 \<le> roundHalfEven x"
  by (simp add: roundHalfEven_def Let_def)

lemma bitlen_rat_bounds:
  assumes "0 < p"
  shows "(2::rat) powi (bitlen p - 1) \<le> of_int p" and "of_int p < (2::rat) powi bitlen p"
proof -
  have b: "1 \<le> bitlen p" using assms by (auto simp: bitlen_alt_def)
  from bitlen_bounds [OF assms]
  have lo: "2 ^ nat (bitlen p - 1) \<le> p" and hi: "p < 2 ^ nat (bitlen p)" by simp_all
  have "(of_int (2 ^ nat (bitlen p - 1)) :: rat) \<le> of_int p"
    using lo by (simp only: of_int_le_iff)
  then show "(2::rat) powi (bitlen p - 1) \<le> of_int p"
    using b by (simp add: power_int_nonneg_exp)
  have "(of_int p :: rat) < of_int (2 ^ nat (bitlen p))"
    using hi by (simp only: of_int_less_iff)
  then show "of_int p < (2::rat) powi bitlen p"
    using b by (simp add: power_int_nonneg_exp)
qed

lemma pow2_split: "(2::rat) powi (i + j) = 2 powi i * 2 powi j"
  by (simp add: power_int_add)

lemma floorLog2_bounds:
  assumes "0 < a"
  shows "2 powi floorLog2 a \<le> a \<and> a < 2 powi (floorLog2 a + 1)"
proof -
  obtain p q where pq: "quotient_of a = (p, q)" by (cases "quotient_of a")
  have q: "0 < q" using pq quotient_of_denom_pos by blast
  have a: "a = of_int p / of_int q" using pq by (rule quotient_of_div)
  have qpos: "(0::rat) < of_int q" using q by simp
  have aq: "a * of_int q = of_int p" using a qpos by simp
  have "(0::rat) < of_int p" using assms qpos aq by (metis mult_pos_pos)
  then have p: "0 < p" by simp
  define d where "d = bitlen p - bitlen q"
  have hi: "a < 2 powi (d + 1)"
  proof -
    have "a * of_int q < 2 powi bitlen p"
      unfolding aq by (rule bitlen_rat_bounds(2) [OF p])
    also have "(2::rat) powi bitlen p = 2 powi (d + 1) * 2 powi (bitlen q - 1)"
      unfolding pow2_split [symmetric] by (simp add: d_def)
    also have "\<dots> \<le> 2 powi (d + 1) * of_int q"
      by (rule mult_left_mono [OF bitlen_rat_bounds(1) [OF q]]) simp
    finally have "a * of_int q < 2 powi (d + 1) * of_int q" .
    then show ?thesis using qpos by (simp only: mult_less_cancel_right_pos)
  qed
  have lo: "2 powi (d - 1) \<le> a"
  proof -
    have "(2::rat) powi (d - 1) * of_int q \<le> 2 powi (d - 1) * 2 powi bitlen q"
      by (rule mult_left_mono [OF less_imp_le [OF bitlen_rat_bounds(2) [OF q]]]) simp
    also have "\<dots> = 2 powi (bitlen p - 1)"
      unfolding pow2_split [symmetric] by (simp add: d_def)
    also have "\<dots> \<le> of_int p" by (rule bitlen_rat_bounds(1) [OF p])
    finally have "(2::rat) powi (d - 1) * of_int q \<le> a * of_int q" unfolding aq .
    then show ?thesis using qpos by (simp only: mult_le_cancel_right_pos)
  qed
  have fl: "floorLog2 a = (if 2 powi d \<le> a then d else d - 1)"
    by (simp add: floorLog2_def pq d_def Let_def)
  show ?thesis
  proof (cases "2 powi d \<le> a")
    case True
    then show ?thesis using hi by (simp add: fl)
  next
    case False
    then show ?thesis using lo by (simp add: fl)
  qed
qed

lemma roundToDouble_bounded:
  assumes "0 \<le> x" and "x \<le> of_int N" and "N < 2 ^ 53"
  shows "\<exists>y. roundToDouble x = Finite y \<and> 0 \<le> y \<and> y \<le> of_int N"
proof (cases "x = 0")
  case True
  then show ?thesis using assms by (simp add: roundToDouble_def)
next
  case False
  then have pos: "0 < x" using assms(1) by simp
  define e where "e = max (floorLog2 x) (- 1022)"
  define n where "n = nat (52 - e)"
  have "(2::rat) powi floorLog2 x \<le> x" using floorLog2_bounds [OF pos] by simp
  also have "x \<le> of_int N" by (rule assms(2))
  also have "(of_int N :: rat) < of_int (2 ^ 53)" using assms(3) by (simp only: of_int_less_iff)
  finally have "(2::rat) powi floorLog2 x < 2 powi 53" by simp
  then have "floorLog2 x < 53"
    by (rule power_int_le_imp_less_exp [rotated]) simp_all
  then have e: "e \<le> 52" by (simp add: e_def)
  then have ulp: "(2::rat) powi (e - 52) = 1 / 2 ^ n"
    by (simp add: n_def power_int_def field_simps)
  define r where "r = roundHalfEven (x / (1 / 2 ^ n))"
  have "x / (1 / 2 ^ n) \<le> of_int (N * 2 ^ n)"
    using assms(2) by (simp add: mult_right_mono)
  then have r_hi: "r \<le> N * 2 ^ n"
    unfolding r_def by (rule roundHalfEven_le)
  have r_lo: "0 \<le> r"
    unfolding r_def using pos by (intro roundHalfEven_nonneg) simp
  define m where "m = (of_int r :: rat) * (1 / 2 ^ n)"
  have m_lo: "0 \<le> m" using r_lo by (simp add: m_def)
  have "(of_int r :: rat) \<le> of_int (N * 2 ^ n)"
    using r_hi by (simp only: of_int_le_iff)
  then have m_hi: "m \<le> of_int N"
    by (simp add: m_def field_simps)
  have "m < of_int (2 ^ 53)"
    using m_hi assms(3) by (metis le_less_trans of_int_less_iff)
  also have "(of_int (2 ^ 53) :: rat) \<le> of_int (2 ^ 1024)" by simp
  finally have fin: "\<not> of_int (2 ^ 1024) \<le> m" by simp
  have "roundToDouble x =
          (if of_int (2 ^ 1024) \<le> m then (if x < 0 then NegInfinity else PosInfinity)
           else Finite (if x < 0 then - m else m))"
    using pos
    by (simp only: roundToDouble_def Let_def e_def [symmetric] ulp m_def [symmetric]
          r_def [symmetric] abs_of_pos) simp
  then have "roundToDouble x = Finite m"
    using pos fin by (simp only: if_False) simp
  with m_lo m_hi show ?thesis by blast
qed

lemma roundToDouble_20: "roundToDouble 20 = Finite 20"
  by code_simp

lemma roundToDouble_40: "roundToDouble 40 = Finite 40"
  by code_simp

lemma roundToDouble_60: "roundToDouble 60 = Finite 60"
  by code_simp

lemma roundToDouble_80: "roundToDouble 80 = Finite 80"
  by code_simp

lemma roundToDouble_100: "roundToDouble 100 = Finite 100"
  by code_simp

lemma intToString_buckets:
  "intToString 0 = ''0''" "intToString 20 = ''20''" "intToString 40 = ''40''"
  "intToString 60 = ''60''" "intToString 80 = ''80''" "intToString 100 = ''100''"
  by (simp_all add: intToString_def digits.simps digitChar_def)

lemma numberToString_buckets:
  "numberToString env (Finite 0) = ''0''" "numberToString env (Finite 20) = ''20''"
  "numberToString env (Finite 40) = ''40''" "numberToString env (Finite 60) = ''60''"
  "numberToString env (Finite 80) = ''80''" "numberToString env (Finite 100) = ''100''"
  by (simp_all add: numberToString_def intToString_buckets)

lemma mathRound_table:
  assumes "0 \<le> y" and "y \<le> 5"
  shows "\<lfloor>y + 1 / 2\<rfloor> =
           (if y < 1 / 2 then 0 else if y < 3 / 2 then 1 else if y < 5 / 2 then 2
            else if y < 7 / 2 then 3 else if y < 9 / 2 then 4 else (5::int))"
  using assms by (auto simp: floor_eq_iff)

lemma progressSuffix_table:
  assumes "0 \<le> x" and "x \<le> 1"
  shows "\<exists>y. multiply (Finite x) (Finite 5) = Finite y \<and> 0 \<le> y \<and> y \<le> 5 \<and>
           progressSuffix env (Finite x) =
             (if y < 1 / 2 then ''0p'' else if y < 3 / 2 then ''20p''
              else if y < 5 / 2 then ''40p'' else if y < 7 / 2 then ''60p''
              else if y < 9 / 2 then ''80p'' else ''100p'')"
proof -
  have "0 \<le> x * 5" and "x * 5 \<le> of_int 5" using assms by simp_all
  from roundToDouble_bounded [OF this] obtain y where
    y: "roundToDouble (x * 5) = Finite y" and lo: "0 \<le> y" and hi: "y \<le> 5"
    by auto
  have "progressSuffix env (Finite x) =
             (if y < 1 / 2 then ''0p'' else if y < 3 / 2 then ''20p''
              else if y < 5 / 2 then ''40p'' else if y < 7 / 2 then ''60p''
              else if y < 9 / 2 then ''80p'' else ''100p'')"
    by (simp add: progressSuffix_def y mathRound_table [OF lo hi] numberToString_buckets
          roundToDouble_20 roundToDouble_40 roundToDouble_60 roundToDouble_80 roundToDouble_100
          roundToDouble_def [of 0])
  with y lo hi show ?thesis by simp
qed

lemma product_double043:
  "roundToDouble (double043 * 5) = Finite (4841369599423283 / 2251799813685248)"
  by code_simp

lemma product_double03: "roundToDouble (double03 * 5) = Finite (3 / 2)"
  by code_simp

lemma product_double05: "roundToDouble (double05 * 5) = Finite (5 / 2)"
  by code_simp

lemma doubles_in_range:
  "0 \<le> double043" "double043 \<le> 1" "0 \<le> double03" "double03 \<le> 1"
  "0 \<le> double05" "double05 \<le> 1"
  by (simp_all add: double043_def double03_def double05_def)

lemma wellFormed_idle: "wellFormed idle"
  by (simp add: wellFormed_def idle_def)

lemma wellFormed_cases:
  assumes "wellFormed c"
  obtains (stopped) "awaiting c = []" "currentUpdate c = None"
        | (running) p where "awaiting c = [p]" "currentUpdate c \<noteq> None"
  using assms by (auto simp: wellFormed_def split: list.splits)

lemma wellFormed_updateBrowserAction:
  assumes "wellFormed c"
  shows "wellFormed (updateBrowserAction params c)"
  using assms
  by (cases rule: wellFormed_cases)
     (auto simp: wellFormed_def updateBrowserAction_def whileNextParams_def)

lemma resume_running:
  assumes "awaiting c = [p]"
  shows "resume 0 outcome c =
           (case currentUpdate c of
              Some (Some q) \<Rightarrow>
                c\<lparr>currentUpdate := Some None, awaiting := [q], rendered := rendered c @ [q]\<rparr>
            | _ \<Rightarrow> c\<lparr>currentUpdate := None, awaiting := []\<rparr>)"
  using assms
  by (simp add: resume_def whileNextParams_def Let_def split: sum.splits option.splits)

lemma resume_out_of_range: "length (awaiting c) \<le> i \<Longrightarrow> resume i outcome c = c"
  by (simp add: resume_def)

lemma wellFormed_resume:
  assumes "wellFormed c"
  shows "wellFormed (resume i outcome c)"
  using assms
proof (cases rule: wellFormed_cases)
  case stopped
  then show ?thesis using assms by (simp add: resume_out_of_range)
next
  case (running p)
  show ?thesis
  proof (cases "i = 0")
    case True
    then show ?thesis
      using running by (simp add: resume_running wellFormed_def split: option.splits)
  next
    case False
    then have "resume i outcome c = c"
      using running by (simp add: resume_out_of_range)
    then show ?thesis using assms by simp
  qed
qed

lemma wellFormed_step: "wellFormed c \<Longrightarrow> wellFormed (step c ev)"
  by (cases ev) (simp_all add: wellFormed_updateBrowserAction wellFormed_resume)

lemma wellFormed_foldl: "wellFormed c \<Longrightarrow> wellFormed (foldl step c evs)"
  by (induction evs arbitrary: c) (simp_all add: wellFormed_step)

lemma wellFormed_run: "wellFormed (run idle evs)"
  unfolding run_def by (rule wellFormed_foldl [OF wellFormed_idle])

lemma wellFormed_length: "wellFormed c \<Longrightarrow> length (awaiting c) \<le> 1"
  by (auto simp: wellFormed_def split: list.splits)

lemma submits_while_running:
  "currentUpdate c \<noteq> None \<Longrightarrow> ps \<noteq> [] \<Longrightarrow>
   foldl step c (map Submit ps) = c\<lparr>currentUpdate := Some (Some (last ps))\<rparr>"
proof (induction ps arbitrary: c)
  case Nil
  then show ?case by simp
next
  case (Cons q qs)
  have s: "updateBrowserAction q c = c\<lparr>currentUpdate := Some (Some q)\<rparr>"
    using Cons.prems(1) by (auto simp: updateBrowserAction_def split: option.splits)
  show ?case
  proof (cases "qs = []")
    case True
    then show ?thesis by (simp add: s)
  next
    case False
    have "foldl step (c\<lparr>currentUpdate := Some (Some q)\<rparr>) (map Submit qs) =
            c\<lparr>currentUpdate := Some (Some q)\<rparr>\<lparr>currentUpdate := Some (Some (last qs))\<rparr>"
      by (rule Cons.IH) (simp_all add: False)
    then show ?thesis using False by (simp add: s)
  qed
qed

lemma run_append: "run c (es @ fs) = run (run c es) fs"
  by (simp add: run_def)

lemma run_single: "run c [ev] = step c ev"
  by (simp add: run_def)

lemma run_submits:
  "currentUpdate c \<noteq> None \<Longrightarrow> ps \<noteq> [] \<Longrightarrow>
   run c (map Submit ps) = c\<lparr>currentUpdate := Some (Some (last ps))\<rparr>"
  unfolding run_def by (rule submits_while_running)

lemma one_more_cycle:
  assumes aw: "awaiting c = [p]" and cu: "currentUpdate c \<noteq> None" and ps: "ps \<noteq> []"
  shows "run c (map Submit ps @ [Settle 0 outcome]) =
           c\<lparr>currentUpdate := Some None, awaiting := [last ps],
             rendered := rendered c @ [last ps]\<rparr>"
  by (simp add: run_append run_submits [OF cu ps] run_single resume_running aw)

lemma one_more_cycle_then_stop:
  assumes aw: "awaiting c = [p]" and cu: "currentUpdate c \<noteq> None" and ps: "ps \<noteq> []"
  shows "run c (map Submit ps @ [Settle 0 outcome, Settle 0 outcome']) =
           c\<lparr>currentUpdate := None, awaiting := [], rendered := rendered c @ [last ps]\<rparr>"
proof -
  have "run c (map Submit ps @ [Settle 0 outcome, Settle 0 outcome']) =
          run (run c (map Submit ps @ [Settle 0 outcome])) [Settle 0 outcome']"
    using run_append [of c "map Submit ps @ [Settle 0 outcome]" "[Settle 0 outcome']"] by simp
  then show ?thesis
    by (simp add: one_more_cycle [OF aw cu ps] run_single resume_running)
qed

lemma run_first_submit:
  "run idle [Submit p] = \<lparr>currentUpdate = Some None, awaiting = [p], rendered = [p]\<rparr>"
  by (simp add: run_def idle_def updateBrowserAction_def whileNextParams_def)

lemma run_two_submits:
  "run idle [Submit p, Submit q] =
     \<lparr>currentUpdate = Some (Some q), awaiting = [p], rendered = [p]\<rparr>"
  by (simp add: run_def idle_def updateBrowserAction_def whileNextParams_def)

lemma perform_rejected:
  "\<exists>c \<in> set cs. route c = Direct \<and> rejects c \<Longrightarrow> snd (perform rejects cs) = Inl Thrown"
  by (induction cs) auto

lemma callThrottled_in_window:
  assumes "lastRun t = Some l"
    and "case pendingCall t of None \<Rightarrow> True | Some (a, due) \<Rightarrow> due = l + minIntervalMs t"
    and "now < l + minIntervalMs t"
  shows "callThrottled now args t = t\<lparr>pendingCall := Some (args, l + minIntervalMs t)\<rparr>"
  using assms by (auto simp: callThrottled_def fireTimer_def Let_def split: option.splits)

lemma callsThrottled_in_window:
  assumes "lastRun t = Some l"
    and "case pendingCall t of None \<Rightarrow> True | Some (a, due) \<Rightarrow> due = l + minIntervalMs t"
    and "cs \<noteq> []"
    and "\<forall>(now, args) \<in> set cs. now < l + minIntervalMs t"
  shows "callsThrottled cs t = t\<lparr>pendingCall := Some (snd (last cs), l + minIntervalMs t)\<rparr>"
  using assms
proof (induction cs arbitrary: t)
  case Nil
  then show ?case by simp
next
  case (Cons c cs)
  obtain now args where c: "c = (now, args)" by (cases c)
  have now: "now < l + minIntervalMs t" using Cons.prems(4) c by simp
  have one: "callThrottled now args t = t\<lparr>pendingCall := Some (args, l + minIntervalMs t)\<rparr>"
    by (rule callThrottled_in_window [OF Cons.prems(1,2) now])
  show ?case
  proof (cases "cs = []")
    case True
    then show ?thesis by (simp add: c one)
  next
    case False
    have "callsThrottled cs (t\<lparr>pendingCall := Some (args, l + minIntervalMs t)\<rparr>) =
            t\<lparr>pendingCall := Some (args, l + minIntervalMs t)\<rparr>
             \<lparr>pendingCall := Some (snd (last cs),
                 l + minIntervalMs (t\<lparr>pendingCall := Some (args, l + minIntervalMs t)\<rparr>))\<rparr>"
      using Cons.prems(1,4) False by (intro Cons.IH) auto
    then show ?thesis using False by (simp add: c one)
  qed
qed

lemma throttleInv_throttle: "throttleInv (throttle limit)"
  by (simp add: throttleInv_def throttle_def)

lemma throttleInv_callThrottled: "throttleInv t \<Longrightarrow> throttleInv (callThrottled now args t)"
  by (auto simp: throttleInv_def callThrottled_def fireTimer_def Let_def split: option.splits)

lemma throttleInv_callsThrottled: "throttleInv t \<Longrightarrow> throttleInv (callsThrottled cs t)"
  by (induction cs arbitrary: t) (auto simp: throttleInv_callThrottled)

lemma minIntervalMs_callThrottled: "minIntervalMs (callThrottled now args t) = minIntervalMs t"
  by (auto simp: callThrottled_def fireTimer_def Let_def split: option.splits)

lemma minIntervalMs_callsThrottled: "minIntervalMs (callsThrottled cs t) = minIntervalMs t"
  by (induction cs arbitrary: t) (auto simp: minIntervalMs_callThrottled)

lemma throttleInv_pending:
  "throttleInv t \<Longrightarrow> lastRun t = Some l \<Longrightarrow>
   (case pendingCall t of None \<Rightarrow> True | Some (a, due) \<Rightarrow> due = l + minIntervalMs t)"
  by (auto simp: throttleInv_def split: option.splits)

lemma title_applied_at_1000:
  "callsThrottled [(1000, (''first'', Some (4::int)))] (throttle 2500) =
     \<lparr>minIntervalMs = 2500, lastRun = Some 1000, pendingCall = None,
      executed = [(1000, (''first'', Some 4))]\<rparr>"
  by (simp add: callThrottled_def fireTimer_def throttle_def)

lemma title_applied_at_0:
  "callsThrottled [(0, (''first'', None :: int option))] (throttle 2500) =
     \<lparr>minIntervalMs = 2500, lastRun = Some 0, pendingCall = None,
      executed = [(0, (''first'', None))]\<rparr>"
  by (simp add: callThrottled_def fireTimer_def throttle_def)

lemma progress_part_not_sky: "xs @ ''p'' \<noteq> ''sky''"
proof
  assume "xs @ ''p'' = ''sky''"
  then have "last (xs @ ''p'') = last ''sky''" by simp
  then show False by simp
qed

lemma seriesColors_not_sky: "seriesColors series \<noteq> ''sky''"
  by (cases series) simp_all

lemma progressSuffix_not_sky: "progressSuffix env totalProgress \<noteq> ''sky''"
  by (simp add: progressSuffix_def progress_part_not_sky)

lemma sky_part_iff:
  "(''sky'' \<in> set (iconFilenameParts (derived env p))) = (toolbarIcon p = Sky)"
  using seriesColors_not_sky [symmetric] progressSuffix_not_sky [symmetric]
  by (auto simp: derived_def overlay_parts chooseBase_def Let_def seriesColors_not_sky
        progressSuffix_not_sky
      split: UpdateState.splits)

subsection \<open>The coalescing loop\<close>

text \<open>
  Claim C1. Whatever sequence of submissions and settlements has happened, at most one run
  of the loop is suspended on a render cycle. When a cycle is running and \<open>N \<ge> 1\<close>
  snapshots \<open>ps\<close> are submitted before it settles, the submissions start no cycle; when
  the running cycle settles, exactly one further cycle starts, for the last snapshot of
  \<open>ps\<close>; and when that one settles the loop stops, having rendered nothing else.
\<close>

theorem coalescer_one_cycle_at_a_time:
  "length (awaiting (run idle evs)) \<le> 1 \<and>
   (awaiting (run idle evs) \<noteq> [] \<and> ps \<noteq> [] \<longrightarrow>
      rendered (run (run idle evs) (map Submit ps)) = rendered (run idle evs) \<and>
      awaiting (run (run idle evs) (map Submit ps)) = awaiting (run idle evs) \<and>
      rendered (run (run idle evs) (map Submit ps @ [Settle 0 outcome])) =
        rendered (run idle evs) @ [last ps] \<and>
      awaiting (run (run idle evs) (map Submit ps @ [Settle 0 outcome])) = [last ps] \<and>
      currentUpdate (run (run idle evs) (map Submit ps @ [Settle 0 outcome])) = Some None \<and>
      run (run idle evs) (map Submit ps @ [Settle 0 outcome, Settle 0 outcome']) =
        (run idle evs)\<lparr>currentUpdate := None, awaiting := [],
                        rendered := rendered (run idle evs) @ [last ps]\<rparr>)"
proof -
  define c where "c = run idle evs"
  have wf: "wellFormed c" unfolding c_def by (rule wellFormed_run)
  have one: "length (awaiting c) \<le> 1" by (rule wellFormed_length [OF wf])
  have "rendered (run c (map Submit ps)) = rendered c \<and>
      awaiting (run c (map Submit ps)) = awaiting c \<and>
      rendered (run c (map Submit ps @ [Settle 0 outcome])) = rendered c @ [last ps] \<and>
      awaiting (run c (map Submit ps @ [Settle 0 outcome])) = [last ps] \<and>
      currentUpdate (run c (map Submit ps @ [Settle 0 outcome])) = Some None \<and>
      run c (map Submit ps @ [Settle 0 outcome, Settle 0 outcome']) =
        c\<lparr>currentUpdate := None, awaiting := [], rendered := rendered c @ [last ps]\<rparr>"
    if run: "awaiting c \<noteq> []" and ps: "ps \<noteq> []"
  proof -
    from wf run obtain p where aw: "awaiting c = [p]" and cu: "currentUpdate c \<noteq> None"
      by (cases rule: wellFormed_cases) auto
    show ?thesis
      by (simp add: run_submits [OF cu ps] one_more_cycle [OF aw cu ps]
            one_more_cycle_then_stop [OF aw cu ps])
  qed
  with one show ?thesis unfolding c_def by blast
qed

text \<open>
  The theorem at a concrete run: one snapshot starts a cycle, two more arrive while it
  runs, and the two settlements leave the first and the last snapshot rendered.
\<close>

theorem coalescer_one_cycle_at_a_time_witness:
  "awaiting (run idle [Submit exampleEnabled]) \<noteq> [] \<and>
   [exampleDisabled, exampleBroken] \<noteq> [] \<and>
   run (run idle [Submit exampleEnabled])
     (map Submit [exampleDisabled, exampleBroken] @ [Settle 0 (Inr ()), Settle 0 (Inl Thrown)]) =
     \<lparr>currentUpdate = None, awaiting = [], rendered = [exampleEnabled, exampleBroken]\<rparr>"
  using coalescer_one_cycle_at_a_time
    [of "[Submit exampleEnabled]" "[exampleDisabled, exampleBroken]" "Inr ()" "Inl Thrown"]
  unfolding run_first_submit by simp

text \<open>
  Claim C7. When a cycle for snapshot \<open>p\<close> is running and the host rejects one of the
  awaited calls of its effect application, the awaited function throws; the loop goes on
  exactly as after a cycle that resolved: it reads the pending snapshot, starts a cycle
  for it when there is one, and otherwise resets \<^verbatim>\<open>currentUpdate\<close> to undefined. Even if
  the next cycle fails as well, the marker is undefined once it has settled.
\<close>

theorem failed_cycle_is_swallowed:
  assumes "awaiting (run idle evs) = [p]"
    and "\<exists>call \<in> set (doUpdateBrowserAction env p). route call = Direct \<and> rejects call"
  shows "snd (perform rejects (doUpdateBrowserAction env p)) = Inl Thrown \<and>
         step (run idle evs) (Settle 0 (snd (perform rejects (doUpdateBrowserAction env p)))) =
           step (run idle evs) (Settle 0 (Inr ())) \<and>
         step (run idle evs) (Settle 0 (snd (perform rejects (doUpdateBrowserAction env p)))) =
           (case currentUpdate (run idle evs) of
              Some (Some q) \<Rightarrow>
                (run idle evs)\<lparr>currentUpdate := Some None, awaiting := [q],
                                rendered := rendered (run idle evs) @ [q]\<rparr>
            | _ \<Rightarrow> (run idle evs)\<lparr>currentUpdate := None, awaiting := []\<rparr>) \<and>
         currentUpdate (run (run idle evs)
            [Settle 0 (snd (perform rejects (doUpdateBrowserAction env p))),
             Settle 0 (Inl Thrown)]) = None"
proof -
  define c where "c = run idle evs"
  have aw: "awaiting c = [p]" using assms(1) by (simp add: c_def)
  have thrown: "snd (perform rejects (doUpdateBrowserAction env p)) = Inl Thrown"
    by (rule perform_rejected [OF assms(2)])
  have same: "step c (Settle 0 (Inl Thrown)) = step c (Settle 0 (Inr ()))"
    by (simp add: resume_running [OF aw])
  have next_cycle: "step c (Settle 0 (Inl Thrown)) =
           (case currentUpdate c of
              Some (Some q) \<Rightarrow>
                c\<lparr>currentUpdate := Some None, awaiting := [q], rendered := rendered c @ [q]\<rparr>
            | _ \<Rightarrow> c\<lparr>currentUpdate := None, awaiting := []\<rparr>)"
    by (simp add: resume_running [OF aw])
  have stops: "currentUpdate (run c [Settle 0 (Inl Thrown), Settle 0 (Inl Thrown)]) = None"
  proof (cases "currentUpdate c")
    case None
    then show ?thesis
      by (simp add: run_def resume_running [OF aw] resume_out_of_range)
  next
    case (Some u)
    then show ?thesis
      by (cases u) (simp_all add: run_def resume_running [OF aw] resume_running resume_out_of_range)
  qed
  from thrown same next_cycle stops show ?thesis
    unfolding c_def by simp
qed

text \<open>
  The theorem at a concrete run: a host that rejects every call, a cycle running for one
  snapshot and another snapshot pending. The failed cycle is followed by the cycle of the
  pending snapshot.
\<close>

theorem failed_cycle_is_swallowed_witness:
  "awaiting (run idle [Submit exampleEnabled, Submit exampleDisabled]) = [exampleEnabled] \<and>
   (\<exists>call \<in> set (doUpdateBrowserAction exampleEnv exampleEnabled). route call = Direct \<and> True) \<and>
   snd (perform (\<lambda>call. True) (doUpdateBrowserAction exampleEnv exampleEnabled)) = Inl Thrown \<and>
   step (run idle [Submit exampleEnabled, Submit exampleDisabled])
      (Settle 0 (snd (perform (\<lambda>call. True) (doUpdateBrowserAction exampleEnv exampleEnabled)))) =
     \<lparr>currentUpdate = Some None, awaiting = [exampleDisabled],
      rendered = [exampleEnabled, exampleDisabled]\<rparr>"
proof -
  have b: "\<exists>call \<in> set (doUpdateBrowserAction exampleEnv exampleEnabled). route call = Direct \<and> True"
    by (simp add: call_defs exampleEnv_def)
  show ?thesis
    using failed_cycle_is_swallowed
      [of "[Submit exampleEnabled, Submit exampleDisabled]" exampleEnabled exampleEnv
          "\<lambda>call. True"] b
    unfolding run_two_submits by auto
qed

subsection \<open>The rate limiter\<close>

text \<open>
  Claim C8. Take the rate-limited wrapper after any history of calls, with the effect last
  run at time \<open>l\<close>, and let one or more calls \<open>cs\<close> of the wrapper be made within the limit
  of that execution. None of them runs the effect; each replaces the pending invocation,
  so that the last one is pending, due exactly at \<open>l + limit\<close>. Looked at at a later time,
  the effect has run once more if that time has come, at \<open>l + limit\<close> and with the
  arguments of the last call, and not at all before. For the title: after an application
  of a title, two requests 100 ms apart under the limit of 2500 ms lead to one more applied
  title, the second's, 2500 ms after that application (the concrete runs below).
\<close>

theorem throttle_defers_to_last_call:
  assumes "lastRun (callsThrottled history (throttle limit)) = Some l"
    and "cs \<noteq> []"
    and "\<forall>(now, args) \<in> set cs. now < l + limit"
  shows "executed (callsThrottled cs (callsThrottled history (throttle limit))) =
           executed (callsThrottled history (throttle limit)) \<and>
         pendingCall (callsThrottled cs (callsThrottled history (throttle limit))) =
           Some (snd (last cs), l + limit) \<and>
         executed (fireTimer later (callsThrottled cs (callsThrottled history (throttle limit)))) =
           (if later < l + limit then executed (callsThrottled history (throttle limit))
            else executed (callsThrottled history (throttle limit)) @
                   [(l + limit, snd (last cs))]) \<and>
         pendingCall (fireTimer later (callsThrottled cs (callsThrottled history (throttle limit)))) =
           (if later < l + limit then Some (snd (last cs), l + limit) else None)"
proof -
  define t where "t = callsThrottled history (throttle limit)"
  have lim: "minIntervalMs t = limit"
    by (simp add: t_def minIntervalMs_callsThrottled throttle_def)
  have inv: "throttleInv t"
    unfolding t_def by (rule throttleInv_callsThrottled [OF throttleInv_throttle])
  have last: "lastRun t = Some l" using assms(1) by (simp add: t_def)
  have win: "\<forall>(now, args) \<in> set cs. now < l + minIntervalMs t"
    using assms(3) by (simp add: lim)
  have "callsThrottled cs t = t\<lparr>pendingCall := Some (snd (last cs), l + minIntervalMs t)\<rparr>"
    by (rule callsThrottled_in_window [OF last throttleInv_pending [OF inv last] assms(2) win])
  then show ?thesis
    unfolding t_def [symmetric] by (simp add: fireTimer_def lim)
qed

text \<open>
  The theorem at concrete runs of \<open>throttledSetTitle\<close>. A title is applied at 1000 ms and
  requests follow at 1200 ms and 1300 ms: at 3499 ms nothing more has been applied, at
  5000 ms the title of the second request has been, once, at 3500 ms. On a fresh wrapper,
  requests at 0 ms and 100 ms: the first is applied at once, the second at 2500 ms.
\<close>

theorem throttle_defers_to_last_call_witness:
  "executed (fireTimer 5000
      (callsThrottled [(1200, (''second'', Some 4)), (1300, (''third'', Some 4))]
         (callsThrottled [(1000, (''first'', Some 4))] throttledSetTitle))) =
     [(1000, (''first'', Some 4)), (3500, (''third'', Some 4))] \<and>
   executed (fireTimer 3499
      (callsThrottled [(1200, (''second'', Some 4)), (1300, (''third'', Some 4))]
         (callsThrottled [(1000, (''first'', Some 4))] throttledSetTitle))) =
     [(1000, (''first'', Some 4))] \<and>
   executed (fireTimer 2500
      (callsThrottled [(100, (''second'', None))]
         (callsThrottled [(0, (''first'', None))] throttledSetTitle))) =
     [(0, (''first'', None)), (2500, (''second'', None))]"
  using
    throttle_defers_to_last_call
      [of "[(1000, (''first'', Some (4::int)))]" 2500 1000
          "[(1200, (''second'', Some 4)), (1300, (''third'', Some 4))]" 5000]
    throttle_defers_to_last_call
      [of "[(1000, (''first'', Some (4::int)))]" 2500 1000
          "[(1200, (''second'', Some 4)), (1300, (''third'', Some 4))]" 3499]
    throttle_defers_to_last_call
      [of "[(0, (''first'', None :: int option))]" 2500 0 "[(100, (''second'', None))]" 2500]
  unfolding throttledSetTitle_def title_applied_at_1000 title_applied_at_0 by simp

subsection \<open>The derivation of icon, badge and caption\<close>

text \<open>
  Claim C2, as stated, fails: for a disabled snapshot whose update state is
  \<^verbatim>\<open>checking\<close>, the caption set is the checking message, not the disabled message.
\<close>

theorem disabled_tooltip_replaced_by_checking:
  "titles BrowserAction (doUpdateBrowserAction exampleEnv
       \<lparr>enabled = False, jpdictState = jpdictOk\<lparr>updateState := Checking Words\<rparr>,
        tabId = None, toolbarIcon = Default\<rparr>) = [''command_toggle_checking''] \<and>
   getMessage exampleEnv ''command_toggle_disabled'' [] = ''command_toggle_disabled'' \<and>
   titles BrowserAction (doUpdateBrowserAction exampleEnv
       \<lparr>enabled = False, jpdictState = jpdictOk\<lparr>updateState := Checking Words\<rparr>,
        tabId = None, toolbarIcon = Default\<rparr>) \<noteq>
     [getMessage exampleEnv ''command_toggle_disabled'' []]"
  by (simp add: fixture_defs call_defs derived_def chooseBase_def showsUpdateError_def)

text \<open>
  Claim C2, amended. For every snapshot with \<open>enabled = false\<close> the icon gets the
  \<^verbatim>\<open>disabled\<close> part whatever the update state is (the progress parts of \<^verbatim>\<open>checking\<close>
  and \<^verbatim>\<open>updating\<close> follow it), and the base step chooses the disabled message as tooltip.
  The caption set is the disabled message only when the update state is idle and no update
  error is shown: \<^verbatim>\<open>checking\<close> replaces it by the checking message, \<^verbatim>\<open>updating\<close> by
  the downloading message, and a shown update error by the update-error message.
\<close>

theorem disabled_base_then_overlay:
  "\<not> enabled p \<Longrightarrow>
   iconFilenameParts (derived env p) =
     (''10ten'' # (if toolbarIcon p = Sky then [''sky''] else [])) @ [''disabled''] @
     (case updateState (jpdictState p) of
        Idle \<Rightarrow> []
      | Checking series \<Rightarrow> [''0p'', seriesColors series]
      | Updating series totalProgress \<Rightarrow>
          [progressSuffix env totalProgress, seriesColors series]) \<and>
   tooltip (chooseBase env p) = getMessage env ''command_toggle_disabled'' [] \<and>
   titles BrowserAction (doUpdateBrowserAction env p) =
     [if showsUpdateError env (jpdictState p) then getMessage env ''command_toggle_update_error'' []
      else case updateState (jpdictState p) of
        Idle \<Rightarrow> getMessage env ''command_toggle_disabled'' []
      | Checking series \<Rightarrow> getMessage env ''command_toggle_checking'' []
      | Updating series totalProgress \<Rightarrow>
          getMessage env ''command_toggle_downloading''
            [getLocalizedDataSeriesLabel env series,
             numberToString env (progressAsPercent totalProgress)]]"
  by (auto simp: call_defs derived_def chooseBase_def overlay_parts split: UpdateState.splits)

theorem disabled_base_then_overlay_witness:
  "\<not> enabled (exampleDisabled\<lparr>jpdictState := jpdictOk\<lparr>updateState := Checking Kanji\<rparr>\<rparr>) \<and>
   iconFilenameParts (derived exampleEnv
       (exampleDisabled\<lparr>jpdictState := jpdictOk\<lparr>updateState := Checking Kanji\<rparr>\<rparr>)) =
     [''10ten'', ''sky'', ''disabled'', ''0p'', ''purple''] \<and>
   titles BrowserAction (doUpdateBrowserAction exampleEnv
       (exampleDisabled\<lparr>jpdictState := jpdictOk\<lparr>updateState := Checking Kanji\<rparr>\<rparr>)) =
     [''command_toggle_checking'']"
  using disabled_base_then_overlay
    [of "exampleDisabled\<lparr>jpdictState := jpdictOk\<lparr>updateState := Checking Kanji\<rparr>\<rparr>" exampleEnv]
  by (simp add: fixture_defs showsUpdateError_def)

text \<open>
  Claim C3. For every snapshot: the badge text set on the browser action is \<^verbatim>\<open>'!'\<close>,
  with the badge colour \<^verbatim>\<open>'yellow'\<close> set and the caption replaced by the update-error
  message, exactly when the state of some major series (the words, names, kanji or
  radicals record, where that series is among the major ones) is not \<^verbatim>\<open>'ok'\<close> and an
  update error is recorded whose name is neither \<^verbatim>\<open>'AbortError'\<close> nor
  \<^verbatim>\<open>'QuotaExceededError'\<close>. In every other case the badge text set is empty, no badge
  colour is set, and the caption is the tooltip of the earlier steps. The compose action,
  where there is one, gets the same badge text and colour.
\<close>

theorem update_error_badge:
  "badgeTexts BrowserAction (doUpdateBrowserAction env p) =
     [if showsUpdateError env (jpdictState p) then ''!'' else ''''] \<and>
   badgeColors BrowserAction (doUpdateBrowserAction env p) =
     (if showsUpdateError env (jpdictState p) then [''yellow''] else []) \<and>
   titles BrowserAction (doUpdateBrowserAction env p) =
     [if showsUpdateError env (jpdictState p) then getMessage env ''command_toggle_update_error'' []
      else tooltip (derived env p)] \<and>
   badgeTexts ComposeAction (doUpdateBrowserAction env p) =
     (if hasComposeAction env then badgeTexts BrowserAction (doUpdateBrowserAction env p) else []) \<and>
   badgeColors ComposeAction (doUpdateBrowserAction env p) =
     (if hasComposeAction env then badgeColors BrowserAction (doUpdateBrowserAction env p) else []) \<and>
   showsUpdateError env (jpdictState p) =
     (((Words \<in> set (allMajorDataSeries env) \<and> state (words (jpdictState p)) \<noteq> ''ok'') \<or>
       (Names \<in> set (allMajorDataSeries env) \<and> state (names (jpdictState p)) \<noteq> ''ok'') \<or>
       (Kanji \<in> set (allMajorDataSeries env) \<and> state (kanji (jpdictState p)) \<noteq> ''ok'') \<or>
       (Radicals \<in> set (allMajorDataSeries env) \<and>
          state (radicals (jpdictState p)) \<noteq> ''ok'')) \<and>
      (\<exists>e. updateError (jpdictState p) = Some e \<and> name e \<noteq> ''AbortError'' \<and>
            name e \<noteq> ''QuotaExceededError''))"
proof -
  have series: "hasNotOkDatabase env (jpdictState p) =
     ((Words \<in> set (allMajorDataSeries env) \<and> state (words (jpdictState p)) \<noteq> ''ok'') \<or>
      (Names \<in> set (allMajorDataSeries env) \<and> state (names (jpdictState p)) \<noteq> ''ok'') \<or>
      (Kanji \<in> set (allMajorDataSeries env) \<and> state (kanji (jpdictState p)) \<noteq> ''ok'') \<or>
      (Radicals \<in> set (allMajorDataSeries env) \<and> state (radicals (jpdictState p)) \<noteq> ''ok''))"
    (is "?lhs = ?rhs")
  proof
    assume ?lhs
    then obtain series where mem: "series \<in> set (allMajorDataSeries env)"
      and ne: "seriesState (jpdictState p) series \<noteq> ''ok''"
      by (auto simp: hasNotOkDatabase_def list_ex_iff)
    show ?rhs by (insert mem ne, cases series) simp_all
  next
    assume ?rhs
    then show ?lhs
      by (auto simp: hasNotOkDatabase_def list_ex_iff
            intro: bexI [of _ Words] bexI [of _ Names] bexI [of _ Kanji] bexI [of _ Radicals])
  qed
  have error: "(case updateError (jpdictState p) of None \<Rightarrow> False
        | Some e \<Rightarrow> name e \<noteq> ''AbortError'' \<and> name e \<noteq> ''QuotaExceededError'') =
      (\<exists>e. updateError (jpdictState p) = Some e \<and> name e \<noteq> ''AbortError'' \<and>
            name e \<noteq> ''QuotaExceededError'')"
    by (auto split: option.splits)
  have shown: "showsUpdateError env (jpdictState p) =
     (((Words \<in> set (allMajorDataSeries env) \<and> state (words (jpdictState p)) \<noteq> ''ok'') \<or>
       (Names \<in> set (allMajorDataSeries env) \<and> state (names (jpdictState p)) \<noteq> ''ok'') \<or>
       (Kanji \<in> set (allMajorDataSeries env) \<and> state (kanji (jpdictState p)) \<noteq> ''ok'') \<or>
       (Radicals \<in> set (allMajorDataSeries env) \<and>
          state (radicals (jpdictState p)) \<noteq> ''ok'')) \<and>
      (\<exists>e. updateError (jpdictState p) = Some e \<and> name e \<noteq> ''AbortError'' \<and>
            name e \<noteq> ''QuotaExceededError''))"
    unfolding showsUpdateError_def series error ..
  have calls:
    "badgeTexts BrowserAction (doUpdateBrowserAction env p) =
       [if showsUpdateError env (jpdictState p) then ''!'' else ''''] \<and>
     badgeColors BrowserAction (doUpdateBrowserAction env p) =
       (if showsUpdateError env (jpdictState p) then [''yellow''] else []) \<and>
     titles BrowserAction (doUpdateBrowserAction env p) =
       [if showsUpdateError env (jpdictState p) then getMessage env ''command_toggle_update_error'' []
        else tooltip (derived env p)] \<and>
     badgeTexts ComposeAction (doUpdateBrowserAction env p) =
       (if hasComposeAction env then badgeTexts BrowserAction (doUpdateBrowserAction env p) else []) \<and>
     badgeColors ComposeAction (doUpdateBrowserAction env p) =
       (if hasComposeAction env then badgeColors BrowserAction (doUpdateBrowserAction env p) else [])"
    by (simp add: call_defs)
  from calls shown show ?thesis by blast
qed

text \<open>
  The theorem at three snapshots. With the words series not \<^verbatim>\<open>'ok'\<close>, a network error
  is shown and a quota error is not. With every series \<^verbatim>\<open>'ok'\<close>, a network error is not
  shown: the badge text set is empty, no colour is set and the caption is the enabled
  message.
\<close>

theorem update_error_badge_witness:
  "badgeTexts BrowserAction (doUpdateBrowserAction exampleEnv
      (exampleBroken\<lparr>jpdictState := jpdictBroken\<lparr>updateError := Some \<lparr>name = ''NetworkError''\<rparr>\<rparr>\<rparr>))
     = [''!''] \<and>
   badgeColors BrowserAction (doUpdateBrowserAction exampleEnv
      (exampleBroken\<lparr>jpdictState := jpdictBroken\<lparr>updateError := Some \<lparr>name = ''NetworkError''\<rparr>\<rparr>\<rparr>))
     = [''yellow''] \<and>
   titles BrowserAction (doUpdateBrowserAction exampleEnv
      (exampleBroken\<lparr>jpdictState := jpdictBroken\<lparr>updateError := Some \<lparr>name = ''NetworkError''\<rparr>\<rparr>\<rparr>))
     = [''command_toggle_update_error''] \<and>
   badgeTexts BrowserAction (doUpdateBrowserAction exampleEnv
      (exampleBroken\<lparr>jpdictState := jpdictBroken\<lparr>updateError := Some \<lparr>name = ''QuotaExceededError''\<rparr>\<rparr>\<rparr>))
     = [''''] \<and>
   badgeColors BrowserAction (doUpdateBrowserAction exampleEnv
      (exampleBroken\<lparr>jpdictState := jpdictBroken\<lparr>updateError := Some \<lparr>name = ''QuotaExceededError''\<rparr>\<rparr>\<rparr>))
     = [] \<and>
   titles BrowserAction (doUpdateBrowserAction exampleEnv
      (exampleBroken\<lparr>jpdictState := jpdictBroken\<lparr>updateError := Some \<lparr>name = ''QuotaExceededError''\<rparr>\<rparr>\<rparr>))
     = [''error_loading_dictionary''] \<and>
   badgeTexts BrowserAction (doUpdateBrowserAction exampleEnv
      (exampleEnabled\<lparr>jpdictState := jpdictOk\<lparr>updateError := Some \<lparr>name = ''NetworkError''\<rparr>\<rparr>\<rparr>))
     = [''''] \<and>
   badgeColors BrowserAction (doUpdateBrowserAction exampleEnv
      (exampleEnabled\<lparr>jpdictState := jpdictOk\<lparr>updateError := Some \<lparr>name = ''NetworkError''\<rparr>\<rparr>\<rparr>))
     = [] \<and>
   titles BrowserAction (doUpdateBrowserAction exampleEnv
      (exampleEnabled\<lparr>jpdictState := jpdictOk\<lparr>updateError := Some \<lparr>name = ''NetworkError''\<rparr>\<rparr>\<rparr>))
     = [''command_toggle_enabled'']"
  using
    update_error_badge [of exampleEnv
      "exampleBroken\<lparr>jpdictState := jpdictBroken\<lparr>updateError := Some \<lparr>name = ''NetworkError''\<rparr>\<rparr>\<rparr>"]
    update_error_badge [of exampleEnv
      "exampleBroken\<lparr>jpdictState := jpdictBroken\<lparr>updateError := Some \<lparr>name = ''QuotaExceededError''\<rparr>\<rparr>\<rparr>"]
    update_error_badge [of exampleEnv
      "exampleEnabled\<lparr>jpdictState := jpdictOk\<lparr>updateError := Some \<lparr>name = ''NetworkError''\<rparr>\<rparr>\<rparr>"]
  by (simp add: fixture_defs derived_def chooseBase_def)

text \<open>
  Claim C4 is not what the code does for \<^verbatim>\<open>checking\<close>. For an enabled snapshot whose
  words data failed to load (the base step selects the \<^verbatim>\<open>error\<close> part), the
  \<^verbatim>\<open>checking\<close> case of the \<^verbatim>\<open>switch\<close> still appends \<^verbatim>\<open>0p\<close> and the series colour,
  while the \<^verbatim>\<open>updating\<close> case, which tests for the \<^verbatim>\<open>error\<close> part, appends nothing.
\<close>

theorem checking_appends_progress_to_error_icon:
  "iconFilename exampleEnv
     \<lparr>enabled = True, jpdictState = jpdictBroken\<lparr>updateState := Checking Words\<rparr>,
      tabId = None, toolbarIcon = Default\<rparr> = ''10ten-error-0p-green'' \<and>
   iconFilename exampleEnv
     \<lparr>enabled = True, jpdictState = jpdictBroken\<lparr>updateState := Updating Words (Finite double043)\<rparr>,
      tabId = None, toolbarIcon = Default\<rparr> = ''10ten-error''"
  by (simp add: fixture_defs derive_defs)

text \<open>
  Claim C5, as stated, fails: an enabled snapshot whose base step selected the \<^verbatim>\<open>error\<close>
  part, in the \<^verbatim>\<open>updating\<close> variant with progress 0.43 for the words series, gets no
  progress part and no colour.
\<close>

theorem updating_error_base_has_no_bucket:
  "iconFilenameParts (derived exampleEnv
     \<lparr>enabled = True, jpdictState = jpdictBroken\<lparr>updateState := Updating Words (Finite double043)\<rparr>,
      tabId = None, toolbarIcon = Default\<rparr>) = [''10ten'', ''error'']"
  by (simp add: fixture_defs derive_defs)

text \<open>
  Claim C5, amended. For every snapshot in the \<^verbatim>\<open>updating\<close> variant with
  \<open>totalProgress\<close> in \<open>[0, 1]\<close> whose base step did not select the \<^verbatim>\<open>error\<close> part, the
  icon parts of the base step are followed by the bucket and by the colour of the series
  (words green, names blue, kanji purple, radicals purple). The bucket is
  \<open>round (totalProgress * 5) * 20\<close> with \<^verbatim>\<open>p\<close> appended, the product \<open>y\<close> being the double
  product of the language and a half rounded up: \<^verbatim>\<open>0p\<close> for \<open>y\<close> below 0.5, \<^verbatim>\<open>20p\<close> below
  1.5, \<^verbatim>\<open>40p\<close> below 2.5, \<^verbatim>\<open>60p\<close> below 3.5, \<^verbatim>\<open>80p\<close> below 4.5 and \<^verbatim>\<open>100p\<close> from there
  on. When the base step selected the \<^verbatim>\<open>error\<close> part, which it does for an enabled
  snapshot whose words state and fallback state match none of the earlier cases, nothing
  is appended.
\<close>

theorem updating_progress_bucket:
  assumes "updateState (jpdictState p) = Updating series (Finite x)"
    and "0 \<le> x" and "x \<le> 1"
  shows "\<exists>y. multiply (Finite x) (Finite 5) = Finite y \<and> 0 \<le> y \<and> y \<le> 5 \<and>
           iconFilenameParts (derived env p) =
             iconFilenameParts (chooseBase env p) @
               (if ''error'' \<in> set (iconFilenameParts (chooseBase env p)) then []
                else [if y < 1 / 2 then ''0p'' else if y < 3 / 2 then ''20p''
                      else if y < 5 / 2 then ''40p'' else if y < 7 / 2 then ''60p''
                      else if y < 9 / 2 then ''80p'' else ''100p'',
                      case series of Words \<Rightarrow> ''green'' | Names \<Rightarrow> ''blue''
                      | Kanji \<Rightarrow> ''purple'' | Radicals \<Rightarrow> ''purple'']) \<and>
           (''error'' \<in> set (iconFilenameParts (chooseBase env p))) =
             (enabled p \<and>
              state (words (jpdictState p)) \<noteq> ''ok'' \<and>
              fallbackState (words (jpdictState p)) \<noteq> ''ok'' \<and>
              state (words (jpdictState p)) \<noteq> ''init'' \<and>
              fallbackState (words (jpdictState p)) \<noteq> ''loading'' \<and>
              fallbackState (words (jpdictState p)) \<noteq> ''unloaded'')"
proof -
  from progressSuffix_table [OF assms(2,3), of env] obtain y where
    y: "multiply (Finite x) (Finite 5) = Finite y" "0 \<le> y" "y \<le> 5"
    and suffix: "progressSuffix env (Finite x) =
             (if y < 1 / 2 then ''0p'' else if y < 3 / 2 then ''20p''
              else if y < 5 / 2 then ''40p'' else if y < 7 / 2 then ''60p''
              else if y < 9 / 2 then ''80p'' else ''100p'')"
    by blast
  have colour: "seriesColors series =
           (case series of Words \<Rightarrow> ''green'' | Names \<Rightarrow> ''blue'' | Kanji \<Rightarrow> ''purple''
            | Radicals \<Rightarrow> ''purple'')"
    by (cases series) simp_all
  have parts: "iconFilenameParts (derived env p) =
           iconFilenameParts (chooseBase env p) @
             (if ''error'' \<in> set (iconFilenameParts (chooseBase env p)) then []
              else [progressSuffix env (Finite x), seriesColors series])"
    using assms(1) by (simp add: derived_def overlay_parts)
  have err: "(''error'' \<in> set (iconFilenameParts (chooseBase env p))) =
           (enabled p \<and>
            state (words (jpdictState p)) \<noteq> ''ok'' \<and>
            fallbackState (words (jpdictState p)) \<noteq> ''ok'' \<and>
            state (words (jpdictState p)) \<noteq> ''init'' \<and>
            fallbackState (words (jpdictState p)) \<noteq> ''loading'' \<and>
            fallbackState (words (jpdictState p)) \<noteq> ''unloaded'')"
    by (auto simp: chooseBase_def Let_def)
  show ?thesis
    using y err unfolding parts suffix colour by blast
qed

text \<open>
  The theorem at three disabled snapshots: the double 0.43 for the words series gives
  \<^verbatim>\<open>40p\<close> and green; the double 0.3, whose product with 5 is the double 1.5, gives
  \<^verbatim>\<open>40p\<close>; the double 0.5, whose product is the tie 2.5, gives \<^verbatim>\<open>60p\<close>.
\<close>

theorem updating_progress_bucket_witness:
  "0 \<le> double043 \<and> double043 \<le> 1 \<and> 0 \<le> double03 \<and> double03 \<le> 1 \<and>
   0 \<le> double05 \<and> double05 \<le> 1 \<and>
   iconFilenameParts (derived exampleEnv
     \<lparr>enabled = False, jpdictState = jpdictOk\<lparr>updateState := Updating Words (Finite double043)\<rparr>,
      tabId = None, toolbarIcon = Default\<rparr>) = [''10ten'', ''disabled'', ''40p'', ''green''] \<and>
   iconFilenameParts (derived exampleEnv
     \<lparr>enabled = False, jpdictState = jpdictOk\<lparr>updateState := Updating Names (Finite double03)\<rparr>,
      tabId = None, toolbarIcon = Default\<rparr>) = [''10ten'', ''disabled'', ''40p'', ''blue''] \<and>
   iconFilenameParts (derived exampleEnv
     \<lparr>enabled = False, jpdictState = jpdictOk\<lparr>updateState := Updating Kanji (Finite double05)\<rparr>,
      tabId = None, toolbarIcon = Default\<rparr>) = [''10ten'', ''disabled'', ''60p'', ''purple'']"
  using
    updating_progress_bucket
      [of "\<lparr>enabled = False,
            jpdictState = jpdictOk\<lparr>updateState := Updating Words (Finite double043)\<rparr>,
            tabId = None, toolbarIcon = Default\<rparr>" Words double043 exampleEnv]
    updating_progress_bucket
      [of "\<lparr>enabled = False,
            jpdictState = jpdictOk\<lparr>updateState := Updating Names (Finite double03)\<rparr>,
            tabId = None, toolbarIcon = Default\<rparr>" Names double03 exampleEnv]
    updating_progress_bucket
      [of "\<lparr>enabled = False,
            jpdictState = jpdictOk\<lparr>updateState := Updating Kanji (Finite double05)\<rparr>,
            tabId = None, toolbarIcon = Default\<rparr>" Kanji double05 exampleEnv]
  by (auto simp: jpdictOk_def chooseBase_def doubles_in_range product_double043
        product_double03 product_double05)

text \<open>
  Claim C6, as stated, fails: where the compose action exists, the same caption is set on
  it by a direct call, not through \<^verbatim>\<open>throttledSetTitle\<close>.
\<close>

theorem compose_action_title_set_directly:
  "Call Direct ComposeAction (SetTitle ''command_toggle_enabled'') None \<in>
     set (doUpdateBrowserAction exampleEnv
       \<lparr>enabled = True, jpdictState = jpdictOk, tabId = Some 7, toolbarIcon = Default\<rparr>)"
  by (simp add: fixture_defs call_defs derived_def chooseBase_def showsUpdateError_def)

text \<open>
  Claim C6, amended. In every render cycle a call goes through the rate limiter exactly
  when it sets the title of the browser action: that title is never set directly, and
  every icon and badge call is made directly. The caption is set once through the rate
  limiter on the browser action and, where the compose action exists, once more on it by
  a direct call.
\<close>

theorem only_browser_action_title_is_throttled:
  "(\<forall>c \<in> set (doUpdateBrowserAction env p).
      (route c = Throttled) = (surface c = BrowserAction \<and> isSetTitle (apiMethod c))) \<and>
   filter (\<lambda>c. isSetTitle (apiMethod c)) (doUpdateBrowserAction env p) =
     Call Throttled BrowserAction (SetTitle (caption env p)) (tabId p) #
     (if hasComposeAction env then [Call Direct ComposeAction (SetTitle (caption env p)) None]
      else [])"
  by (auto simp: doUpdateBrowserAction_def setIcon_def Let_def)

text \<open>The theorem at a concrete cycle: its calls, and the one that is rate-limited.\<close>

theorem only_browser_action_title_is_throttled_witness:
  "doUpdateBrowserAction exampleEnv exampleEnabled =
     [Call Direct BrowserAction (SetIcon (Svg ''images/10ten.svg'')) (Some 1),
      Call Direct ComposeAction (SetIcon (Svg ''images/10ten.svg'')) None,
      Call Direct BrowserAction (SetBadgeText '''') (Some 1),
      Call Direct ComposeAction (SetBadgeText '''') None,
      Call Throttled BrowserAction (SetTitle ''command_toggle_enabled'') (Some 1),
      Call Direct ComposeAction (SetTitle ''command_toggle_enabled'') None] \<and>
   filter (\<lambda>c. isSetTitle (apiMethod c)) (doUpdateBrowserAction exampleEnv exampleEnabled) =
     [Call Throttled BrowserAction (SetTitle ''command_toggle_enabled'') (Some 1),
      Call Direct ComposeAction (SetTitle ''command_toggle_enabled'') None]"
  using only_browser_action_title_is_throttled [of exampleEnv exampleEnabled]
  by (simp add: fixture_defs call_defs derive_defs showsUpdateError_def hasNotOkDatabase_def)

text \<open>
  Claim C9, as stated, fails: for a disabled snapshot with the \<^verbatim>\<open>sky\<close> style the parts are
  \<^verbatim>\<open>10ten\<close>, \<^verbatim>\<open>sky\<close>, \<^verbatim>\<open>disabled\<close>; the modifier precedes the base part.
\<close>

theorem sky_precedes_base_part:
  "iconFilenameParts (derived exampleEnv
       \<lparr>enabled = False, jpdictState = jpdictOk, tabId = None, toolbarIcon = Sky\<rparr>)
     = [''10ten'', ''sky'', ''disabled''] \<and>
   iconFilename exampleEnv
       \<lparr>enabled = False, jpdictState = jpdictOk, tabId = None, toolbarIcon = Sky\<rparr>
     = ''10ten-sky-disabled'' \<and>
   \<not> occursAfter ''sky'' ''disabled'' (iconFilenameParts (derived exampleEnv
       \<lparr>enabled = False, jpdictState = jpdictOk, tabId = None, toolbarIcon = Sky\<rparr>))"
  by (simp add: fixture_defs derive_defs occursAfter_def)

text \<open>
  Claim C9, amended. For every snapshot the style preference is an icon-name modifier that
  replaces nothing: the parts for the \<^verbatim>\<open>sky\<close> style are the parts for the default style
  with \<^verbatim>\<open>sky\<close> inserted directly after the stem \<^verbatim>\<open>10ten\<close>, before the base part
  (\<^verbatim>\<open>disabled\<close> or \<^verbatim>\<open>error\<close>) and the progress parts.
\<close>

theorem sky_inserted_after_stem:
  "iconFilenameParts (derived env (p\<lparr>toolbarIcon := Default\<rparr>)) =
     ''10ten'' # tl (iconFilenameParts (derived env (p\<lparr>toolbarIcon := Default\<rparr>))) \<and>
   iconFilenameParts (derived env (p\<lparr>toolbarIcon := Sky\<rparr>)) =
     ''10ten'' # ''sky'' # tl (iconFilenameParts (derived env (p\<lparr>toolbarIcon := Default\<rparr>)))"
  by (auto simp: derived_def overlay_parts chooseBase_def Let_def split: UpdateState.splits)

theorem sky_inserted_after_stem_witness:
  "iconFilenameParts (derived exampleEnv (exampleBroken\<lparr>toolbarIcon := Default\<rparr>)) =
     [''10ten'', ''error''] \<and>
   iconFilenameParts (derived exampleEnv (exampleBroken\<lparr>toolbarIcon := Sky\<rparr>)) =
     [''10ten'', ''sky'', ''error'']"
  using sky_inserted_after_stem [of exampleEnv exampleBroken]
  by (simp add: fixture_defs derive_defs)

subsection \<open>setDefaultToolbarIcon\<close>

text \<open>
  Claim C10. \<^verbatim>\<open>setDefaultToolbarIcon\<close> sets the icon \<^verbatim>\<open>10ten-disabled\<close>, without the
  \<^verbatim>\<open>sky\<close> part, for the \<^verbatim>\<open>sky\<close> style, and \<^verbatim>\<open>10ten-sky-disabled\<close> for the default style.
  The derivation of \<^verbatim>\<open>doUpdateBrowserAction\<close> assigns them the other way round: its
  parts contain \<^verbatim>\<open>sky\<close> exactly for the \<^verbatim>\<open>sky\<close> style, and for a disabled snapshot with
  an idle update state it chooses the file name that \<^verbatim>\<open>setDefaultToolbarIcon\<close> chooses
  for the opposite style.
\<close>

theorem setDefaultToolbarIcon_opposite_variant:
  "setDefaultToolbarIcon env Sky = setIcon env ''10ten-disabled'' None \<and>
   setDefaultToolbarIcon env Default = setIcon env ''10ten-sky-disabled'' None \<and>
   (''sky'' \<in> set (iconFilenameParts (derived env p))) = (toolbarIcon p = Sky) \<and>
   (\<not> enabled p \<and> updateState (jpdictState p) = Idle \<longrightarrow>
      iconFilename env p =
        (if toolbarIcon p = Sky then ''10ten-sky-disabled'' else ''10ten-disabled'') \<and>
      iconFilename env p = defaultIconFilename (if toolbarIcon p = Sky then Default else Sky))"
proof -
  have default_icon:
    "setDefaultToolbarIcon env Sky = setIcon env ''10ten-disabled'' None \<and>
     setDefaultToolbarIcon env Default = setIcon env ''10ten-sky-disabled'' None"
    by (simp add: setDefaultToolbarIcon_def defaultIconFilename_def)
  have derived_icon:
    "\<not> enabled p \<and> updateState (jpdictState p) = Idle \<longrightarrow>
      iconFilename env p =
        (if toolbarIcon p = Sky then ''10ten-sky-disabled'' else ''10ten-disabled'') \<and>
      iconFilename env p = defaultIconFilename (if toolbarIcon p = Sky then Default else Sky)"
    by (simp add: defaultIconFilename_def derive_defs)
  from default_icon derived_icon sky_part_iff [of env p] show ?thesis
    by blast
qed

theorem setDefaultToolbarIcon_opposite_variant_witness:
  "\<not> enabled exampleDisabled \<and> updateState (jpdictState exampleDisabled) = Idle \<and>
   toolbarIcon exampleDisabled = Sky \<and>
   iconFilename exampleEnv exampleDisabled = ''10ten-sky-disabled'' \<and>
   setDefaultToolbarIcon exampleEnv Sky =
     [Call Direct BrowserAction (SetIcon (Svg ''images/10ten-disabled.svg'')) None,
      Call Direct ComposeAction (SetIcon (Svg ''images/10ten-disabled.svg'')) None]"
  using setDefaultToolbarIcon_opposite_variant [of exampleEnv exampleDisabled]
  by (simp add: fixture_defs setIcon_def Let_def)

end
